theory Spec2Isabelle
  imports Complex_Main "HOL-Library.Sublist"
begin

section \<open>Data model (SecurityScanner.tsx)\<close>

text \<open>
  JavaScript numbers are modelled exactly: integer-valued ones as \<open>int\<close> or \<open>nat\<close>, the
  others (the random draw, the progress percentage, the mean score before rounding, the
  scan duration) as \<open>rat\<close>. All integers that occur stay far below \<open>2 ^ 53\<close>.
\<close>

datatype severity = Critical | High | Medium | Low

record Vulnerability =
  vuln_id :: string
  vuln_type :: string
  severity :: severity
  title :: string
  description :: string
  recommendation :: string
  details :: "string option"

record ScanResult =
  scan_id :: string
  scan_url :: string
  timestamp :: nat
  overallScore :: int
  vulnerabilities :: "Vulnerability list"
  scanDuration :: rat

definition MOCK_VULNERABILITIES :: "Vulnerability list" where
  "MOCK_VULNERABILITIES =
    [\<lparr>vuln_id = ''1'', vuln_type = ''SSL/TLS'', severity = Medium,
       title = ''Weak SSL/TLS Configuration'',
       description = ''The website uses older TLS protocols that may be vulnerable.'',
       recommendation = ''Upgrade to TLS 1.3 and disable older protocols.'',
       details = Some ''TLS 1.0 and 1.1 detected. These versions have known security issues.''\<rparr>,
     \<lparr>vuln_id = ''2'', vuln_type = ''Headers'', severity = High,
       title = ''Missing Security Headers'',
       description = ''Critical security headers are not implemented.'',
       recommendation = ''Implement Content-Security-Policy, X-Frame-Options, and HSTS headers.'',
       details = Some ''Missing: Content-Security-Policy, X-Frame-Options, Strict-Transport-Security''\<rparr>,
     \<lparr>vuln_id = ''3'', vuln_type = ''XSS'', severity = Critical,
       title = ''Cross-Site Scripting Vulnerability'',
       description = ''Potential XSS vulnerability detected in user input fields.'',
       recommendation = ''Implement proper input validation and output encoding.'',
       details = Some ''Reflected XSS found in search parameter. Input: <script>alert(1)</script>''\<rparr>]"

datatype tab = Scanner | History

record State =
  url :: string
  isScanning :: bool
  progress :: rat
  currentResult :: "ScanResult option"
  scanHistory :: "ScanResult list"
  activeTab :: tab

definition initialState :: State where
  "initialState = \<lparr>url = [], isScanning = False, progress = 0, currentResult = None,
     scanHistory = [], activeTab = Scanner\<rparr>"

text \<open>The notification sink is a collaborator; the model records what is sent to it.\<close>

datatype variant = Destructive | Default

record Toast =
  toast_title :: string
  toast_description :: string
  duration :: "nat option"
  variant :: "variant option"

section \<open>Platform functions\<close>

text \<open>
  \<open>Array.prototype.slice\<close>: a negative index counts from the end, both indices are clamped
  to the array.
\<close>

definition slice :: "'a list \<Rightarrow> int \<Rightarrow> int \<Rightarrow> 'a list" where
  "slice xs start fin =
     (let len = int (length xs);
          k = (if start < 0 then max (len + start) 0 else min start len);
          final = (if fin < 0 then max (len + fin) 0 else min fin len)
      in take (nat (final - k)) (drop (nat k) xs))"

definition startsWith :: "string \<Rightarrow> string \<Rightarrow> bool" where
  "startsWith s p = (take (length p) s = p)"

definition Math_floor :: "rat \<Rightarrow> int" where
  "Math_floor x = \<lfloor>x\<rfloor>"

text \<open>\<open>Math.round\<close> rounds to the nearest integer, a tie towards plus infinity.\<close>

definition Math_round :: "rat \<Rightarrow> int" where
  "Math_round x = \<lfloor>x + 1 / 2\<rfloor>"

text \<open>Decimal rendering of a non-negative integer (\<open>Number.prototype.toString\<close>).\<close>

fun toString :: "nat \<Rightarrow> string" where
  "toString n = (if n < 10 then [''0123456789'' ! n]
                 else toString (n div 10) @ [''0123456789'' ! (n mod 10)])"

declare toString.simps [simp del]

text \<open>
  The WHATWG URL parser behind \<open>new URL(s)\<close> belongs to the browser, not to this
  repository. It is a parameter of the model: it yields \<open>None\<close> where the constructor
  throws a TypeError, and otherwise the parsed URL object, of which the code reads the
  \<open>hostname\<close>.
\<close>

record URL =
  hostname :: string

type_synonym url_parser = "string \<Rightarrow> URL option"

section \<open>The scanner (SecurityScanner.tsx)\<close>

definition validateUrl :: "url_parser \<Rightarrow> string \<Rightarrow> bool" where
  "validateUrl new_URL u =
     (case new_URL u of
        None \<Rightarrow> False
      | Some _ \<Rightarrow> startsWith u ''http://'' \<or> startsWith u ''https://'')"

definition steps :: "string list" where
  "steps = [''Checking SSL certificate...'',
            ''Analyzing security headers...'',
            ''Testing for XSS vulnerabilities...'',
            ''Scanning for SQL injection...'',
            ''Checking open ports...'',
            ''Generating report...'']"

text \<open>
  What a scan reads from its environment: the value of \<open>Math.random()\<close>, the clock
  (\<open>Date.now()\<close> and \<open>new Date()\<close>, in milliseconds), and whether a collaborator raises
  a fault in the step sequence: while step \<open>i\<close> is suspended, or when its notification
  is sent.
\<close>

datatype fault_point = AtDelay nat | AtToast nat

record Env =
  random :: rat
  date_now :: nat
  new_Date :: nat
  fault :: "fault_point option"

datatype error = Fault | TypeError

definition scanningToast :: "nat \<Rightarrow> Toast" where
  "scanningToast i = \<lparr>toast_title = ''Scanning...'', toast_description = steps ! i,
     duration = Some 800, variant = None\<rparr>"

text \<open>The \<open>for\<close> loop of \<open>simulateScan\<close>, from index \<open>i\<close> on.\<close>

function step_loop :: "fault_point option \<Rightarrow> nat \<Rightarrow> State \<Rightarrow> Toast list
    \<Rightarrow> (error + unit) \<times> State \<times> Toast list" where
  "step_loop f i s ts =
     (if i < length steps then
        if f = Some (AtDelay i) then (Inl Fault, s, ts)
        else
          let s' = s\<lparr>progress := (of_nat (i + 1) / of_nat (length steps)) * 100\<rparr> in
          if f = Some (AtToast i) then (Inl Fault, s', ts)
          else step_loop f (i + 1) s' (ts @ [scanningToast i])
      else (Inr (), s, ts))"
  by pat_completeness auto
termination
  by (relation "measure (\<lambda>(f, i, s, ts). length steps - i)") auto

declare step_loop.simps [simp del]

definition numVulns :: "Env \<Rightarrow> int" where
  "numVulns e = Math_floor (random e * 4) + 1"

definition simulateScan :: "Env \<Rightarrow> State \<Rightarrow> (error + ScanResult) \<times> State \<times> Toast list" where
  "simulateScan e s =
     (case step_loop (fault e) 0 s [] of
        (Inl err, s', ts) \<Rightarrow> (Inl err, s', ts)
      | (Inr _, s', ts) \<Rightarrow>
          let selectedVulns = slice MOCK_VULNERABILITIES 0 (numVulns e);
              score = max 10 (100 - int (length selectedVulns) * 15)
          in (Inr \<lparr>scan_id = toString (date_now e), scan_url = url s,
                    timestamp = new_Date e, overallScore = score,
                    vulnerabilities = selectedVulns, scanDuration = 24 / 5\<rparr>, s', ts))"

definition invalidUrlToast :: Toast where
  "invalidUrlToast = \<lparr>toast_title = ''Invalid URL'',
     toast_description = ''Please enter a valid HTTP or HTTPS URL.'',
     duration = None, variant = Some Destructive\<rparr>"

definition scanCompleteToast :: "ScanResult \<Rightarrow> Toast" where
  "scanCompleteToast result = \<lparr>toast_title = ''Scan Complete'',
     toast_description =
       ''Found '' @ toString (length (vulnerabilities result)) @ '' potential issues.'',
     duration = None,
     variant = Some (if list_ex (\<lambda>v. severity v = Critical) (vulnerabilities result)
                     then Destructive else Default)\<rparr>"

definition scanFailedToast :: Toast where
  "scanFailedToast = \<lparr>toast_title = ''Scan Failed'',
     toast_description = ''An error occurred during the security scan.'',
     duration = None, variant = Some Destructive\<rparr>"

text \<open>The updater passed to \<open>setScanHistory\<close>: \<open>prev => [result, ...prev.slice(0, 9)]\<close>.\<close>

definition addToHistory :: "ScanResult \<Rightarrow> ScanResult list \<Rightarrow> ScanResult list" where
  "addToHistory result prev = result # slice prev 0 9"

text \<open>
  \<open>handleScan\<close>, run from the call to its end: the state it leaves and the notifications
  it sent, in order. The \<open>finally\<close> block is the last update on both paths of the \<open>try\<close>.
\<close>

definition handleScan :: "url_parser \<Rightarrow> Env \<Rightarrow> State \<Rightarrow> State \<times> Toast list" where
  "handleScan new_URL e s =
     (if \<not> validateUrl new_URL (url s) then (s, [invalidUrlToast])
      else
        let s1 = s\<lparr>isScanning := True, progress := 0, currentResult := None\<rparr> in
        case simulateScan e s1 of
          (Inr result, s2, ts) \<Rightarrow>
            (s2\<lparr>currentResult := Some result,
                scanHistory := addToHistory result (scanHistory s2),
                isScanning := False\<rparr>,
             ts @ [scanCompleteToast result])
        | (Inl err, s2, ts) \<Rightarrow>
            (s2\<lparr>isScanning := False\<rparr>, ts @ [scanFailedToast]))"

section \<open>The result view (ScanResults.tsx)\<close>



definition mediumCount :: "ScanResult \<Rightarrow> nat" where
  "mediumCount result = length (filter (\<lambda>v. severity v = Medium) (vulnerabilities result))"

definition lowCount :: "ScanResult \<Rightarrow> nat" where
  "lowCount result = length (filter (\<lambda>v. severity v = Low) (vulnerabilities result))"



section \<open>History statistics (ScanHistory.tsx, SecurityScanner.tsx)\<close>

definition criticalIssues :: "ScanResult list \<Rightarrow> nat" where
  "criticalIssues history =
     foldl (\<lambda>acc scan. acc + length (filter (\<lambda>v. severity v = Critical) (vulnerabilities scan)))
       0 history"

definition highIssues :: "ScanResult list \<Rightarrow> nat" where
  "highIssues history =
     foldl (\<lambda>acc scan. acc + length (filter (\<lambda>v. severity v = High) (vulnerabilities scan)))
       0 history"

text \<open>Both components evaluate the mean only for a history that is not empty.\<close>

definition avgScore :: "ScanResult list \<Rightarrow> int" where
  "avgScore history =
     Math_round (of_int (foldl (\<lambda>acc scan. acc + overallScore scan) 0 history)
                 / of_nat (length history))"

text \<open>A JavaScript \<open>Set\<close> built from an array: an element already present is not added.\<close>

definition Set_add :: "'a list \<Rightarrow> 'a \<Rightarrow> 'a list" where
  "Set_add S x = (if x \<in> set S then S else S @ [x])"

definition new_Set :: "'a list \<Rightarrow> 'a list" where
  "new_Set xs = foldl Set_add [] xs"

text \<open>\<open>history.map(scan => new URL(scan.url).hostname)\<close>; the constructor may throw.\<close>

fun hostnames :: "url_parser \<Rightarrow> ScanResult list \<Rightarrow> error + string list" where
  "hostnames new_URL [] = Inr []"
| "hostnames new_URL (scan # rest) =
     (case new_URL (scan_url scan) of
        None \<Rightarrow> Inl TypeError
      | Some u \<Rightarrow>
          (case hostnames new_URL rest of
             Inl err \<Rightarrow> Inl err
           | Inr hs \<Rightarrow> Inr (hostname u # hs)))"

definition uniqueSites :: "url_parser \<Rightarrow> ScanResult list \<Rightarrow> error + nat" where
  "uniqueSites new_URL history =
     (case hostnames new_URL history of
        Inl err \<Rightarrow> Inl err
      | Inr hs \<Rightarrow> Inr (length (new_Set hs)))"

record HistorySummary =
  hs_totalScans :: nat
  hs_criticalIssues :: nat
  hs_avgScore :: int
  hs_uniqueSites :: nat

text \<open>
  The "History Summary" card of \<open>ScanHistory\<close>: not rendered for an empty history
  (the component returns its empty view before).
\<close>

definition historySummary :: "url_parser \<Rightarrow> ScanResult list \<Rightarrow> error + HistorySummary option" where
  "historySummary new_URL history =
     (if length history = 0 then Inr None
      else
        case uniqueSites new_URL history of
          Inl err \<Rightarrow> Inl err
        | Inr n \<Rightarrow>
            Inr (Some \<lparr>hs_totalScans = length history,
                       hs_criticalIssues = criticalIssues history,
                       hs_avgScore = avgScore history,
                       hs_uniqueSites = n\<rparr>))"

record QuickStats =
  qs_totalScans :: nat
  qs_criticalIssues :: nat
  qs_highIssues :: nat
  qs_avgScore :: int

text \<open>The "Quick Stats" card of \<open>SecurityScanner\<close>, rendered when the history is not empty.\<close>

definition quickStats :: "ScanResult list \<Rightarrow> QuickStats option" where
  "quickStats history =
     (if length history > 0
      then Some \<lparr>qs_totalScans = length history,
                 qs_criticalIssues = criticalIssues history,
                 qs_highIssues = highIssues history,
                 qs_avgScore = avgScore history\<rparr>
      else None)"

section \<open>User actions\<close>

text \<open>
  The actions the rendered page offers, with the guards of the markup: the input and the
  scan button are on the scanner tab, the input is disabled during a scan, the button is
  disabled during a scan and for an empty input; the history tab lists the stored
  results, each with a "View" button, and offers to clear a history that is not empty.
\<close>

datatype event =
    SetUrl string
  | StartScan Env
  | SetActiveTab tab
  | ViewScan nat
  | ClearHistory

fun dispatch :: "url_parser \<Rightarrow> State \<Rightarrow> event \<Rightarrow> State" where
  "dispatch new_URL s (SetUrl u) =
     (if activeTab s = Scanner \<and> \<not> isScanning s then s\<lparr>url := u\<rparr> else s)"
| "dispatch new_URL s (StartScan e) =
     (if activeTab s = Scanner \<and> \<not> (isScanning s \<or> url s = [])
      then fst (handleScan new_URL e s) else s)"
| "dispatch new_URL s (SetActiveTab t) = s\<lparr>activeTab := t\<rparr>"
| "dispatch new_URL s (ViewScan i) =
     (if activeTab s = History \<and> i < length (scanHistory s)
      then s\<lparr>currentResult := Some (scanHistory s ! i)\<rparr> else s)"
| "dispatch new_URL s ClearHistory =
     (if activeTab s = History \<and> scanHistory s \<noteq> [] then s\<lparr>scanHistory := []\<rparr> else s)"

definition run :: "url_parser \<Rightarrow> event list \<Rightarrow> State" where
  "run new_URL evs = foldl (dispatch new_URL) initialState evs"

text \<open>\<open>Math.random()\<close> returns a number in the half-open interval from 0 to 1.\<close>

definition random_ok :: "Env \<Rightarrow> bool" where
  "random_ok e = (0 \<le> random e \<and> random e < 1)"

section \<open>Properties and sample inputs\<close>

text \<open>The score rule of the data model, as a property of one result.\<close>

definition score_invariant :: "ScanResult \<Rightarrow> bool" where
  "score_invariant r = (overallScore r = max 10 (100 - 15 * int (length (vulnerabilities r))))"

text \<open>A sample environment (the draw 3/4 gives the count 4) and a sample state.\<close>

definition example_env :: Env where
  "example_env = \<lparr>random = 3 / 4, date_now = 1700000000000, new_Date = 1700000000001, fault = None\<rparr>"

definition example_state :: State where
  "example_state = initialState\<lparr>url := ''https://example.com''\<rparr>"

text \<open>
  What the browser's parser returns on a few strings (it accepts an \<open>ftp\<close> URL and
  an upper-case scheme, and rejects a string without a scheme), for the sample runs.
\<close>

definition sample_URL :: url_parser where
  "sample_URL u =
     (if u = ''https://example.com'' then Some \<lparr>hostname = ''example.com''\<rparr>
      else if u = ''https://a.com/x'' then Some \<lparr>hostname = ''a.com''\<rparr>
      else if u = ''https://a.com/y'' then Some \<lparr>hostname = ''a.com''\<rparr>
      else if u = ''http://b.org'' then Some \<lparr>hostname = ''b.org''\<rparr>
      else if u = ''ftp://x.com'' then Some \<lparr>hostname = ''x.com''\<rparr>
      else if u = ''HTTP://x.com'' then Some \<lparr>hostname = ''x.com''\<rparr>
      else None)"

definition sample_result :: "string \<Rightarrow> int \<Rightarrow> Vulnerability list \<Rightarrow> ScanResult" where
  "sample_result u score vs = \<lparr>scan_id = ''1700000000000'', scan_url = u,
     timestamp = 1700000000001, overallScore = score, vulnerabilities = vs,
     scanDuration = 24 / 5\<rparr>"

text \<open>
  What holds of the state between two user actions: no scan is in flight, the history
  has at most ten entries, and every stored result obeys the score rule and carries a
  URL that passed validation.
\<close>

definition result_ok :: "url_parser \<Rightarrow> ScanResult \<Rightarrow> bool" where
  "result_ok new_URL r = (score_invariant r \<and> validateUrl new_URL (scan_url r))"

definition state_invariant :: "url_parser \<Rightarrow> State \<Rightarrow> bool" where
  "state_invariant new_URL s =
     (\<not> isScanning s \<and> length (scanHistory s) \<le> 10
      \<and> list_all (result_ok new_URL) (scanHistory s)
      \<and> (case currentResult s of None \<Rightarrow> True | Some r \<Rightarrow> result_ok new_URL r))"

text \<open>The step at which a fault is raised.\<close>

fun fault_index :: "fault_point \<Rightarrow> nat" where
  "fault_index (AtDelay k) = k"
| "fault_index (AtToast k) = k"

text \<open>
  A sample session: the URL is typed, then eleven scans are run (the clock reads 1, 2, ...
  at their ends).
\<close>

definition sample_session :: "event list" where
  "sample_session =
     SetUrl ''https://example.com'' #
     map (\<lambda>k. StartScan (example_env\<lparr>date_now := k\<rparr>)) [1, 2, 3, 4, 5, 6, 7, 8, 9, 10, 11]"

definition sample_scan :: "nat \<Rightarrow> ScanResult" where
  "sample_scan k = (sample_result ''https://example.com'' 55 MOCK_VULNERABILITIES)\<lparr>scan_id := toString k\<rparr>"

section \<open>The simulated scan\<close>

lemma length_MOCK_VULNERABILITIES: "length MOCK_VULNERABILITIES = 3"
  by (simp add: MOCK_VULNERABILITIES_def)

lemma slice_from_0: "0 \<le> n \<Longrightarrow> slice xs 0 n = take (nat n) xs"
  by (simp add: slice_def Let_def min_def)

lemma numVulns_range:
  assumes "random_ok e"
  shows "1 \<le> numVulns e" and "numVulns e \<le> 4"
proof -
  from assms have lo: "0 \<le> random e * 4" and hi: "random e * 4 < 4"
    by (simp_all add: random_ok_def)
  from lo have "0 \<le> \<lfloor>random e * 4\<rfloor>" by simp
  then show "1 \<le> numVulns e" by (simp add: numVulns_def Math_floor_def)
  from hi have "\<lfloor>random e * 4\<rfloor> < 4" by (simp add: floor_less_iff)
  then show "numVulns e \<le> 4" by (simp add: numVulns_def Math_floor_def)
qed

lemma simulateScan_completed:
  assumes "fst (simulateScan e s) = Inr r"
  shows "r = \<lparr>scan_id = toString (date_now e), scan_url = url s, timestamp = new_Date e,
               overallScore = max 10 (100 - int (length (slice MOCK_VULNERABILITIES 0 (numVulns e))) * 15),
               vulnerabilities = slice MOCK_VULNERABILITIES 0 (numVulns e),
               scanDuration = 24 / 5\<rparr>"
  using assms by (auto simp: simulateScan_def Let_def split: prod.splits sum.splits)

lemma step_loop_no_fault: "fst (step_loop None i s ts) = Inr ()"
proof (induction "None :: fault_point option" i s ts rule: step_loop.induct)
  case (1 i s ts)
  then show ?case by (subst step_loop.simps) (simp add: Let_def)
qed

lemma simulateScan_completes:
  assumes "fault e = None"
  shows "\<exists>r. fst (simulateScan e s) = Inr r"
proof -
  obtain x s' ts where eq: "step_loop (fault e) 0 s [] = (x, s', ts)"
    by (cases "step_loop (fault e) 0 s []") auto
  with step_loop_no_fault [of 0 s "[]"] assms have "x = Inr ()" by simp
  with eq show ?thesis by (simp add: simulateScan_def Let_def)
qed

lemma completed_vulnerabilities:
  assumes "random_ok e" and "fst (simulateScan e s) = Inr r"
  shows "vulnerabilities r = take (nat (numVulns e)) MOCK_VULNERABILITIES"
proof -
  from assms(1) have "0 \<le> numVulns e" using numVulns_range(1) [of e] by simp
  then have "slice MOCK_VULNERABILITIES 0 (numVulns e) = take (nat (numVulns e)) MOCK_VULNERABILITIES"
    by (rule slice_from_0)
  moreover have "vulnerabilities r = slice MOCK_VULNERABILITIES 0 (numVulns e)"
    by (subst simulateScan_completed [OF assms(2)]) simp
  ultimately show ?thesis by simp
qed

lemma completed_score:
  assumes "fst (simulateScan e s) = Inr r"
  shows "overallScore r = max 10 (100 - 15 * int (length (vulnerabilities r)))"
  by (subst (1 2) simulateScan_completed [OF assms]) (simp add: mult.commute)

lemma completed_length:
  assumes "random_ok e" and "fst (simulateScan e s) = Inr r"
  shows "int (length (vulnerabilities r)) = min (numVulns e) 3"
  using numVulns_range [OF assms(1)]
  by (simp add: completed_vulnerabilities [OF assms] length_MOCK_VULNERABILITIES)

lemma example_env_ok: "random_ok example_env"
  by (simp add: random_ok_def example_env_def)

lemma example_env_numVulns: "numVulns example_env = 4"
  by (simp add: example_env_def numVulns_def Math_floor_def)

text \<open>
  Claim C1. For a completed scan (the draw lies in the half-open unit interval, the step
  sequence raised no fault), the vulnerability sequence of the result has between 1 and 4
  entries and is the first \<open>numVulns\<close> entries of the catalog, in catalog order: a prefix
  of the catalog. The drawn count is between 1 and 4.
\<close>

theorem completed_scan_vulnerabilities:
  assumes "random_ok e" and "fst (simulateScan e s) = Inr r"
  shows "1 \<le> length (vulnerabilities r) \<and> length (vulnerabilities r) \<le> 4
       \<and> 1 \<le> numVulns e \<and> numVulns e \<le> 4
       \<and> vulnerabilities r = take (nat (numVulns e)) MOCK_VULNERABILITIES
       \<and> prefix (vulnerabilities r) MOCK_VULNERABILITIES"
proof -
  note v = completed_vulnerabilities [OF assms]
  note n = numVulns_range [OF assms(1)]
  from completed_length [OF assms] n have "1 \<le> length (vulnerabilities r)" "length (vulnerabilities r) \<le> 4"
    by simp_all
  moreover have "prefix (vulnerabilities r) MOCK_VULNERABILITIES"
    unfolding v by (rule take_is_prefix)
  ultimately show ?thesis using v n by simp
qed

theorem completed_scan_vulnerabilities_witness:
  "random_ok example_env
   \<and> fst (simulateScan example_env example_state) =
       Inr \<lparr>scan_id = ''1700000000000'', scan_url = ''https://example.com'',
            timestamp = 1700000000001, overallScore = 55,
            vulnerabilities = MOCK_VULNERABILITIES, scanDuration = 24 / 5\<rparr>
   \<and> prefix MOCK_VULNERABILITIES MOCK_VULNERABILITIES
   \<and> length MOCK_VULNERABILITIES \<le> 4"
proof -
  have h1: "random_ok example_env" by (rule example_env_ok)
  have h2: "fst (simulateScan example_env example_state) =
       Inr \<lparr>scan_id = ''1700000000000'', scan_url = ''https://example.com'',
            timestamp = 1700000000001, overallScore = 55,
            vulnerabilities = MOCK_VULNERABILITIES, scanDuration = 24 / 5\<rparr>"
    by (simp add: simulateScan_def step_loop.simps steps_def Let_def example_env_def example_state_def initialState_def numVulns_def Math_floor_def slice_def MOCK_VULNERABILITIES_def toString.simps)
  from completed_scan_vulnerabilities [OF h1 h2] h1 h2 show ?thesis by simp
qed

text \<open>
  Claim C2, as stated, fails for the drawn count 4: the catalog has three entries, the
  slice is the whole catalog, and the score is 55, not \<open>max 10 (100 - 15 * 4) = 40\<close>.
\<close>

theorem score_by_drawn_count_counterexample:
  "random_ok example_env \<and> numVulns example_env = 4
   \<and> fst (simulateScan example_env example_state) =
       Inr \<lparr>scan_id = ''1700000000000'', scan_url = ''https://example.com'',
            timestamp = 1700000000001, overallScore = 55,
            vulnerabilities = MOCK_VULNERABILITIES, scanDuration = 24 / 5\<rparr>
   \<and> max 10 (100 - 15 * numVulns example_env) = 40"
  by (simp add: simulateScan_def step_loop.simps steps_def Let_def example_env_def
      example_state_def initialState_def numVulns_def Math_floor_def slice_def
      MOCK_VULNERABILITIES_def toString.simps random_ok_def)

text \<open>
  Claim C2, amended. For every drawn count \<open>N\<close> in 1..4 the score of the completed scan is
  \<open>max 10 (100 - 15 * min N 3)\<close>: 85 for 1, 70 for 2, 55 for 3 and 55 for 4.
\<close>

theorem score_by_drawn_count:
  assumes "random_ok e" and "fst (simulateScan e s) = Inr r"
  shows "overallScore r = max 10 (100 - 15 * min (numVulns e) 3)
       \<and> (numVulns e = 1 \<longrightarrow> overallScore r = 85)
       \<and> (numVulns e = 2 \<longrightarrow> overallScore r = 70)
       \<and> (numVulns e = 3 \<longrightarrow> overallScore r = 55)
       \<and> (numVulns e = 4 \<longrightarrow> overallScore r = 55)"
proof -
  have "overallScore r = max 10 (100 - 15 * min (numVulns e) 3)"
    using completed_score [OF assms(2)] completed_length [OF assms] by simp
  then show ?thesis by simp
qed

theorem score_by_drawn_count_witness:
  "random_ok (example_env\<lparr>random := 1 / 4\<rparr>)
   \<and> numVulns (example_env\<lparr>random := 1 / 4\<rparr>) = 2
   \<and> fst (simulateScan (example_env\<lparr>random := 1 / 4\<rparr>) example_state) =
       Inr \<lparr>scan_id = ''1700000000000'', scan_url = ''https://example.com'',
            timestamp = 1700000000001, overallScore = 70,
            vulnerabilities = take 2 MOCK_VULNERABILITIES, scanDuration = 24 / 5\<rparr>
   \<and> (70::int) = max 10 (100 - 15 * min 2 3)"
proof -
  have h1: "random_ok (example_env\<lparr>random := 1 / 4\<rparr>)"
    by (simp add: random_ok_def example_env_def)
  have n: "numVulns (example_env\<lparr>random := 1 / 4\<rparr>) = 2"
    by (simp add: numVulns_def Math_floor_def example_env_def)
  have h2: "fst (simulateScan (example_env\<lparr>random := 1 / 4\<rparr>) example_state) =
       Inr \<lparr>scan_id = ''1700000000000'', scan_url = ''https://example.com'',
            timestamp = 1700000000001, overallScore = 70,
            vulnerabilities = take 2 MOCK_VULNERABILITIES, scanDuration = 24 / 5\<rparr>"
    by (simp add: simulateScan_def step_loop.simps steps_def Let_def example_env_def
        example_state_def initialState_def numVulns_def Math_floor_def slice_def
        MOCK_VULNERABILITIES_def toString.simps)
  from score_by_drawn_count [OF h1 h2] h1 h2 n show ?thesis by simp
qed

text \<open>
  Claim C10. The catalog holds exactly three entries. So the result of a completed scan has
  at most three vulnerabilities (also for the drawn count 4), its score is 85, 70 or 55,
  never 40, and the lower clamp at 10 is not the active branch of the maximum.
\<close>

theorem completed_scan_score_values:
  assumes "random_ok e" and "fst (simulateScan e s) = Inr r"
  shows "overallScore r \<in> {85, 70, 55}
       \<and> length MOCK_VULNERABILITIES = 3
       \<and> length (vulnerabilities r) \<le> 3
       \<and> overallScore r \<noteq> 40
       \<and> 10 < 100 - 15 * int (length (vulnerabilities r))
       \<and> overallScore r = 100 - 15 * int (length (vulnerabilities r))"
proof -
  note n = numVulns_range [OF assms(1)]
  note l = completed_length [OF assms]
  from l n have len: "length (vulnerabilities r) \<in> {1, 2, 3}"
    by (cases "numVulns e \<le> 3") auto
  have sc: "overallScore r = max 10 (100 - 15 * int (length (vulnerabilities r)))"
    by (rule completed_score [OF assms(2)])
  from len sc show ?thesis
    by (auto simp: length_MOCK_VULNERABILITIES)
qed

theorem completed_scan_score_values_witness:
  "random_ok example_env \<and> numVulns example_env = 4
   \<and> fst (simulateScan example_env example_state) =
       Inr \<lparr>scan_id = ''1700000000000'', scan_url = ''https://example.com'',
            timestamp = 1700000000001, overallScore = 55,
            vulnerabilities = MOCK_VULNERABILITIES, scanDuration = 24 / 5\<rparr>
   \<and> length MOCK_VULNERABILITIES = 3"
proof -
  have h1: "random_ok example_env" by (rule example_env_ok)
  have h2: "fst (simulateScan example_env example_state) =
       Inr \<lparr>scan_id = ''1700000000000'', scan_url = ''https://example.com'',
            timestamp = 1700000000001, overallScore = 55,
            vulnerabilities = MOCK_VULNERABILITIES, scanDuration = 24 / 5\<rparr>"
    by (simp add: simulateScan_def step_loop.simps steps_def Let_def example_env_def
        example_state_def initialState_def numVulns_def Math_floor_def slice_def
        MOCK_VULNERABILITIES_def toString.simps)
  from completed_scan_score_values [OF h1 h2] h1 h2 example_env_numVulns show ?thesis by simp
qed

lemma step_loop_frame:
  "step_loop f i s ts = (x, s', ts') \<Longrightarrow> \<exists>q. s' = s\<lparr>progress := q\<rparr>"
proof (induction f i s ts rule: step_loop.induct)
  case (1 f i s ts)
  show ?case
  proof (cases "i < length steps \<and> f \<noteq> Some (AtDelay i) \<and> f \<noteq> Some (AtToast i)")
    case True
    with "1.prems" have "step_loop f (i + 1) (s\<lparr>progress := (of_nat (i + 1) / of_nat (length steps)) * 100\<rparr>)
        (ts @ [scanningToast i]) = (x, s', ts')"
      by (subst (asm) step_loop.simps) (simp add: Let_def)
    with True "1.IH" obtain q where
      "s' = s\<lparr>progress := (of_nat (i + 1) / of_nat (length steps)) * 100\<rparr>\<lparr>progress := q\<rparr>"
      by blast
    then have "s' = s\<lparr>progress := q\<rparr>" by simp
    then show ?thesis ..
  next
    case False
    with "1.prems" have "s' = s \<or> s' = s\<lparr>progress := (of_nat (i + 1) / of_nat (length steps)) * 100\<rparr>"
      by (subst (asm) step_loop.simps) (auto simp: Let_def split: if_splits)
    then show ?thesis
    proof
      assume "s' = s"
      then have "s' = s\<lparr>progress := progress s\<rparr>" by simp
      then show ?thesis ..
    qed blast
  qed
qed

lemma simulateScan_frame:
  "\<exists>q. fst (snd (simulateScan e s)) = s\<lparr>progress := q\<rparr>"
proof -
  obtain x s' ts where eq: "step_loop (fault e) 0 s [] = (x, s', ts)"
    by (cases "step_loop (fault e) 0 s []") auto
  from step_loop_frame [OF eq] obtain q where "s' = s\<lparr>progress := q\<rparr>" ..
  with eq show ?thesis
    by (cases x) (auto simp: simulateScan_def Let_def)
qed

lemma handleScan_invalid:
  "\<not> validateUrl p (url s) \<Longrightarrow> handleScan p e s = (s, [invalidUrlToast])"
  by (simp add: handleScan_def)

lemma handleScan_valid:
  assumes "validateUrl p (url s)"
  shows "(\<exists>r q. fst (simulateScan e (s\<lparr>isScanning := True, progress := 0, currentResult := None\<rparr>)) = Inr r
            \<and> fst (handleScan p e s) =
                s\<lparr>isScanning := False, progress := q, currentResult := Some r,
                  scanHistory := r # take 9 (scanHistory s)\<rparr>
            \<and> snd (handleScan p e s) =
                snd (snd (simulateScan e (s\<lparr>isScanning := True, progress := 0, currentResult := None\<rparr>)))
                  @ [scanCompleteToast r])
       \<or> (\<exists>err q. fst (simulateScan e (s\<lparr>isScanning := True, progress := 0, currentResult := None\<rparr>)) = Inl err
            \<and> fst (handleScan p e s) = s\<lparr>isScanning := False, progress := q, currentResult := None\<rparr>
            \<and> snd (handleScan p e s) =
                snd (snd (simulateScan e (s\<lparr>isScanning := True, progress := 0, currentResult := None\<rparr>)))
                  @ [scanFailedToast])"
proof -
  let ?s1 = "s\<lparr>isScanning := True, progress := 0, currentResult := None\<rparr>"
  obtain x s2 ts where eq: "simulateScan e ?s1 = (x, s2, ts)"
    by (cases "simulateScan e ?s1") auto
  from simulateScan_frame [of e ?s1] eq obtain q where s2: "s2 = ?s1\<lparr>progress := q\<rparr>"
    by auto
  show ?thesis
  proof (cases x)
    case (Inl err)
    with assms eq s2 have "fst (handleScan p e s) = s\<lparr>isScanning := False, progress := q, currentResult := None\<rparr>"
      and "snd (handleScan p e s) = ts @ [scanFailedToast]"
      by (simp_all add: handleScan_def Let_def)
    with Inl eq show ?thesis by auto
  next
    case (Inr r)
    with assms eq s2 have "fst (handleScan p e s) = s\<lparr>isScanning := False, progress := q, currentResult := Some r,
                  scanHistory := r # take 9 (scanHistory s)\<rparr>"
      and "snd (handleScan p e s) = ts @ [scanCompleteToast r]"
      by (simp_all add: handleScan_def Let_def addToHistory_def slice_from_0)
    with Inr eq show ?thesis by auto
  qed
qed

section \<open>The scan trigger and the reachable states\<close>

lemma completed_url:
  assumes "fst (simulateScan e s) = Inr r"
  shows "scan_url r = url s"
  by (subst simulateScan_completed [OF assms]) simp

lemma handleScan_invariant:
  assumes "state_invariant p s"
  shows "state_invariant p (fst (handleScan p e s))"
proof (cases "validateUrl p (url s)")
  case False
  with assms show ?thesis by (simp add: handleScan_invalid)
next
  case True
  let ?s1 = "s\<lparr>isScanning := True, progress := 0, currentResult := None\<rparr>"
  from handleScan_valid [OF True, of e] show ?thesis
  proof (elim disjE exE conjE)
    fix r q
    assume r: "fst (simulateScan e ?s1) = Inr r"
      and st: "fst (handleScan p e s) =
        s\<lparr>isScanning := False, progress := q, currentResult := Some r,
          scanHistory := r # take 9 (scanHistory s)\<rparr>"
    have "score_invariant r"
      unfolding score_invariant_def by (rule completed_score [OF r])
    moreover from completed_url [OF r] True have "validateUrl p (scan_url r)" by simp
    ultimately have ok: "result_ok p r" by (simp add: result_ok_def)
    from assms have "list_all (result_ok p) (take 9 (scanHistory s))"
      by (auto simp: state_invariant_def list_all_iff dest: in_set_takeD)
    with ok show ?thesis unfolding st by (simp add: state_invariant_def)
  next
    fix err q
    assume "fst (handleScan p e s) = s\<lparr>isScanning := False, progress := q, currentResult := None\<rparr>"
    with assms show ?thesis by (simp add: state_invariant_def)
  qed
qed

lemma dispatch_invariant:
  assumes "state_invariant p s"
  shows "state_invariant p (dispatch p s ev)"
proof (cases ev)
  case (StartScan e)
  with assms handleScan_invariant [OF assms, of e] show ?thesis by simp
next
  case (ViewScan i)
  show ?thesis
  proof (cases "activeTab s = History \<and> i < length (scanHistory s)")
    case True
    with assms have "result_ok p (scanHistory s ! i)"
      by (simp add: state_invariant_def list_all_length)
    with assms True ViewScan show ?thesis by (simp add: state_invariant_def)
  next
    case False
    with assms ViewScan show ?thesis by auto
  qed
qed (use assms in \<open>auto simp: state_invariant_def\<close>)

lemma foldl_dispatch_invariant:
  "state_invariant p s \<Longrightarrow> state_invariant p (foldl (dispatch p) s evs)"
  by (induction evs arbitrary: s) (simp_all add: dispatch_invariant)

lemma run_invariant: "state_invariant p (run p evs)"
  unfolding run_def
  by (rule foldl_dispatch_invariant) (simp add: state_invariant_def initialState_def)



lemma example_scan:
  "fst (simulateScan example_env example_state) =
     Inr (sample_result ''https://example.com'' 55 MOCK_VULNERABILITIES)"
  by (simp add: simulateScan_def step_loop.simps steps_def Let_def example_env_def
      example_state_def initialState_def numVulns_def Math_floor_def slice_def
      MOCK_VULNERABILITIES_def toString.simps sample_result_def)

lemma example_run:
  "run sample_URL [SetUrl ''https://example.com'', StartScan example_env] =
     \<lparr>url = ''https://example.com'', isScanning = False, progress = 100,
      currentResult = Some (sample_result ''https://example.com'' 55 MOCK_VULNERABILITIES),
      scanHistory = [sample_result ''https://example.com'' 55 MOCK_VULNERABILITIES],
      activeTab = Scanner\<rparr>"
  by (simp add: run_def initialState_def handleScan_def validateUrl_def sample_URL_def
      startsWith_def simulateScan_def step_loop.simps steps_def Let_def example_env_def
      numVulns_def Math_floor_def slice_def addToHistory_def toString.simps
      MOCK_VULNERABILITIES_def sample_result_def)

lemma step_loop_fault:
  "f = Some fp \<Longrightarrow> i \<le> fault_index fp \<Longrightarrow> fault_index fp < length steps
    \<Longrightarrow> fst (step_loop f i s ts) = Inl Fault"
proof (induction f i s ts rule: step_loop.induct)
  case (1 f i s ts)
  from "1.prems" have i: "i < length steps" by simp
  show ?case
  proof (cases "i = fault_index fp")
    case True
    with "1.prems"(1) i show ?thesis
      by (cases fp; subst step_loop.simps; simp add: Let_def)
  next
    case False
    with "1.prems" have neq: "f \<noteq> Some (AtDelay i)" "f \<noteq> Some (AtToast i)" and le: "i + 1 \<le> fault_index fp"
      by (cases fp; auto)+
    from "1.IH" [OF i neq(1) refl neq(2) "1.prems"(1) le "1.prems"(3)] i neq
    show ?thesis by (simp add: step_loop.simps [of f i] Let_def)
  qed
qed

lemma simulateScan_fault:
  assumes "fault e = Some fp" and "fault_index fp < length steps"
  shows "fst (simulateScan e s) = Inl Fault"
proof -
  obtain x s' ts where eq: "step_loop (fault e) 0 s [] = (x, s', ts)"
    by (cases "step_loop (fault e) 0 s []") auto
  with step_loop_fault [OF assms(1) _ assms(2), of 0 s "[]"] have "x = Inl Fault" by simp
  with eq show ?thesis by (simp add: simulateScan_def)
qed

text \<open>
  Claim C3. Every result the scan constructs obeys the score rule
  \<open>overallScore = max 10 (100 - 15 * length vulnerabilities)\<close>, and so does every result
  held by the state after any sequence of user actions (the history and the current
  result). Under the rule the score does not increase with the number of vulnerabilities,
  and it is at least 10.
\<close>

theorem score_invariant_all_results:
  "(fst (simulateScan e s) = Inr r \<longrightarrow> score_invariant r)
   \<and> list_all score_invariant (scanHistory (run new_URL evs))
   \<and> (\<forall>c. currentResult (run new_URL evs) = Some c \<longrightarrow> score_invariant c)
   \<and> (score_invariant a \<and> score_invariant b
        \<and> length (vulnerabilities a) \<le> length (vulnerabilities b)
      \<longrightarrow> overallScore b \<le> overallScore a)
   \<and> (score_invariant a \<longrightarrow> 10 \<le> overallScore a)"
proof -
  have "fst (simulateScan e s) = Inr r \<longrightarrow> score_invariant r"
    by (simp add: score_invariant_def completed_score)
  moreover from run_invariant [of new_URL evs]
  have "list_all score_invariant (scanHistory (run new_URL evs))"
    by (simp add: state_invariant_def result_ok_def list_all_iff)
  moreover from run_invariant [of new_URL evs]
  have "\<forall>c. currentResult (run new_URL evs) = Some c \<longrightarrow> score_invariant c"
    by (auto simp: state_invariant_def result_ok_def)
  moreover have "score_invariant a \<and> score_invariant b
      \<and> length (vulnerabilities a) \<le> length (vulnerabilities b)
    \<longrightarrow> overallScore b \<le> overallScore a"
    by (auto simp: score_invariant_def)
  moreover have "score_invariant a \<longrightarrow> 10 \<le> overallScore a"
    by (simp add: score_invariant_def)
  ultimately show ?thesis by blast
qed

theorem score_invariant_all_results_witness:
  "fst (simulateScan example_env example_state) =
     Inr (sample_result ''https://example.com'' 55 MOCK_VULNERABILITIES)
   \<and> scanHistory (run sample_URL [SetUrl ''https://example.com'', StartScan example_env]) =
       [sample_result ''https://example.com'' 55 MOCK_VULNERABILITIES]
   \<and> currentResult (run sample_URL [SetUrl ''https://example.com'', StartScan example_env]) =
       Some (sample_result ''https://example.com'' 55 MOCK_VULNERABILITIES)
   \<and> score_invariant (sample_result ''https://example.com'' 55 MOCK_VULNERABILITIES)
   \<and> score_invariant (sample_result ''https://example.com'' 70 (take 2 MOCK_VULNERABILITIES))
   \<and> overallScore (sample_result ''https://example.com'' 55 MOCK_VULNERABILITIES)
       \<le> overallScore (sample_result ''https://example.com'' 70 (take 2 MOCK_VULNERABILITIES))
   \<and> 10 \<le> overallScore (sample_result ''https://example.com'' 55 MOCK_VULNERABILITIES)"
proof -
  let ?R = "sample_result ''https://example.com'' 55 MOCK_VULNERABILITIES"
  let ?R2 = "sample_result ''https://example.com'' 70 (take 2 MOCK_VULNERABILITIES)"
  let ?evs = "[SetUrl ''https://example.com'', StartScan example_env]"
  note th = score_invariant_all_results [of example_env example_state ?R sample_URL ?evs ?R2 ?R]
  have h2: "score_invariant ?R2"
    by (simp add: score_invariant_def sample_result_def MOCK_VULNERABILITIES_def)
  have len: "length (vulnerabilities ?R2) \<le> length (vulnerabilities ?R)"
    by (simp add: sample_result_def)
  from th example_scan have h1: "score_invariant ?R" by blast
  from th h1 h2 len have "overallScore ?R \<le> overallScore ?R2" by blast
  moreover from th h2 have "10 \<le> overallScore ?R2" by blast
  moreover from th h1 have "10 \<le> overallScore ?R"
    by (simp add: score_invariant_def)
  ultimately show ?thesis using example_scan example_run h1 h2 by simp
qed

lemma addToHistory_take: "addToHistory result prev = result # take 9 prev"
  by (simp add: addToHistory_def slice_from_0)

text \<open>
  Claim C5. Inserting a result into any history gives a history of at most ten entries
  with the new result first. Inserted into a history of ten, it gives ten entries again:
  the new result followed by the first nine of the old ones, in their order, so that the
  entry that was tenth is the one dropped; where the entries are pairwise different, it
  no longer occurs in the history. After any sequence of user actions the history has at
  most ten entries.
\<close>

theorem addToHistory_bounded:
  "length (addToHistory result prev) \<le> 10
   \<and> hd (addToHistory result prev) = result
   \<and> (length prev = 10 \<longrightarrow>
        length (addToHistory result prev) = 10
        \<and> addToHistory result prev = result # butlast prev
        \<and> (distinct (result # prev) \<longrightarrow> prev ! 9 \<notin> set (addToHistory result prev)))
   \<and> length (scanHistory (run new_URL evs)) \<le> 10"
proof -
  have eq: "addToHistory result prev = result # take 9 prev"
    by (rule addToHistory_take)
  have "length prev = 10 \<longrightarrow> addToHistory result prev = result # butlast prev"
    by (simp add: eq butlast_conv_take)
  moreover have "length prev = 10 \<longrightarrow> distinct (result # prev)
      \<longrightarrow> prev ! 9 \<notin> set (addToHistory result prev)"
  proof (intro impI)
    assume len: "length prev = 10" and d: "distinct (result # prev)"
    from len have "take (Suc 9) prev = take 9 prev @ [prev ! 9]"
      by (intro take_Suc_conv_app_nth) simp
    moreover from len have "take (Suc 9) prev = prev" by simp
    ultimately have split: "prev = take 9 prev @ [prev ! 9]" by simp
    from d have dp: "distinct prev" and r: "result \<notin> set prev" by simp_all
    from dp split have "distinct (take 9 prev @ [prev ! 9])" by metis
    then have "prev ! 9 \<notin> set (take 9 prev)" by simp
    moreover from len have "prev ! 9 \<in> set prev" by simp
    with r have "prev ! 9 \<noteq> result" by blast
    ultimately show "prev ! 9 \<notin> set (addToHistory result prev)"
      by (simp add: eq)
  qed
  moreover from run_invariant [of new_URL evs]
  have "length (scanHistory (run new_URL evs)) \<le> 10"
    by (simp add: state_invariant_def)
  ultimately show ?thesis by (simp add: eq)
qed


lemma handleScan_example:
  "url s = ''https://example.com'' \<Longrightarrow>
   fst (handleScan sample_URL (example_env\<lparr>date_now := k\<rparr>) s) =
     s\<lparr>isScanning := False, progress := 100, currentResult := Some (sample_scan k),
       scanHistory := sample_scan k # take 9 (scanHistory s)\<rparr>"
  by (simp add: handleScan_def validateUrl_def sample_URL_def
      startsWith_def simulateScan_def step_loop.simps steps_def Let_def example_env_def
      numVulns_def Math_floor_def addToHistory_take slice_from_0 length_MOCK_VULNERABILITIES
      sample_result_def sample_scan_def)

lemma sample_session_history:
  "scanHistory (run sample_URL sample_session) = map sample_scan [11, 10, 9, 8, 7, 6, 5, 4, 3, 2]"
  by (simp add: run_def sample_session_def initialState_def handleScan_example)

theorem addToHistory_bounded_witness:
  "length (map sample_scan [10, 9, 8, 7, 6, 5, 4, 3, 2, 1]) = 10
   \<and> distinct (sample_scan 11 # map sample_scan [10, 9, 8, 7, 6, 5, 4, 3, 2, 1])
   \<and> addToHistory (sample_scan 11) (map sample_scan [10, 9, 8, 7, 6, 5, 4, 3, 2, 1]) =
       map sample_scan [11, 10, 9, 8, 7, 6, 5, 4, 3, 2]
   \<and> sample_scan 1 \<notin> set (addToHistory (sample_scan 11) (map sample_scan [10, 9, 8, 7, 6, 5, 4, 3, 2, 1]))
   \<and> length (scanHistory (run sample_URL sample_session)) = 10"
proof -
  let ?P = "map sample_scan [10, 9, 8, 7, 6, 5, 4, 3, 2, 1]"
  note th = addToHistory_bounded [of "sample_scan 11" ?P sample_URL sample_session]
  have len: "length ?P = 10" by simp
  have d: "distinct (sample_scan 11 # ?P)"
    by (simp add: sample_scan_def sample_result_def toString.simps)
  have nth: "?P ! 9 = sample_scan 1" by simp
  from th len have "addToHistory (sample_scan 11) ?P = sample_scan 11 # butlast ?P" by blast
  then have eq: "addToHistory (sample_scan 11) ?P = map sample_scan [11, 10, 9, 8, 7, 6, 5, 4, 3, 2]"
    by simp
  from th len d have "?P ! 9 \<notin> set (addToHistory (sample_scan 11) ?P)" by blast
  with nth have "sample_scan 1 \<notin> set (addToHistory (sample_scan 11) ?P)" by simp
  with len d eq show ?thesis by (simp add: sample_session_history)
qed

lemma scanningToast_neq_invalid: "scanningToast i \<noteq> invalidUrlToast"
  by (simp add: scanningToast_def invalidUrlToast_def)

text \<open>
  Claim C6. When the URL of the state fails validation, the scan trigger sends one
  notification, the destructive "Invalid URL", and returns the state as it was: the
  history, the current result, the progress and the in-progress flag are unchanged, and
  no step of the scan is run (no "Scanning..." notification is sent).
\<close>

theorem handleScan_rejects_invalid_url:
  assumes "\<not> validateUrl new_URL (url s)"
  shows "handleScan new_URL e s = (s, [invalidUrlToast])
       \<and> toast_title invalidUrlToast = ''Invalid URL''
       \<and> variant invalidUrlToast = Some Destructive
       \<and> scanHistory (fst (handleScan new_URL e s)) = scanHistory s
       \<and> currentResult (fst (handleScan new_URL e s)) = currentResult s
       \<and> progress (fst (handleScan new_URL e s)) = progress s
       \<and> isScanning (fst (handleScan new_URL e s)) = isScanning s
       \<and> scanningToast i \<notin> set (snd (handleScan new_URL e s))"
  using assms
  by (simp add: handleScan_invalid invalidUrlToast_def scanningToast_def)

theorem handleScan_rejects_invalid_url_witness:
  "\<not> validateUrl sample_URL (url (initialState\<lparr>url := ''not a url''\<rparr>))
   \<and> handleScan sample_URL example_env (initialState\<lparr>url := ''not a url''\<rparr>) =
       (initialState\<lparr>url := ''not a url''\<rparr>,
        [\<lparr>toast_title = ''Invalid URL'',
          toast_description = ''Please enter a valid HTTP or HTTPS URL.'',
          duration = None, variant = Some Destructive\<rparr>])"
proof -
  have h: "\<not> validateUrl sample_URL (url (initialState\<lparr>url := ''not a url''\<rparr>))"
    by (simp add: validateUrl_def sample_URL_def)
  from handleScan_rejects_invalid_url [OF h, of example_env 0] h show ?thesis
    by (simp add: invalidUrlToast_def)
qed

text \<open>
  Claim C9. Once the scan has started (the URL passed validation), the trigger ends with
  the in-progress flag cleared, whether the scan completed or a fault was raised in the
  step sequence. A fault does not leave the trigger: the last notification is then the
  destructive "Scan Failed". After any sequence of user actions the flag is clear.
\<close>

theorem handleScan_clears_isScanning:
  assumes "validateUrl new_URL (url s)"
  shows "\<not> isScanning (fst (handleScan new_URL e s))
       \<and> (fault e = Some fp \<and> fault_index fp < length steps \<longrightarrow>
            fst (simulateScan e (s\<lparr>isScanning := True, progress := 0, currentResult := None\<rparr>))
              = Inl Fault
            \<and> last (snd (handleScan new_URL e s)) = scanFailedToast)
       \<and> (fault e = None \<longrightarrow>
            (\<exists>r. fst (simulateScan e (s\<lparr>isScanning := True, progress := 0, currentResult := None\<rparr>))
                  = Inr r
               \<and> last (snd (handleScan new_URL e s)) = scanCompleteToast r))
       \<and> toast_title scanFailedToast = ''Scan Failed''
       \<and> variant scanFailedToast = Some Destructive
       \<and> \<not> isScanning (run new_URL evs)"
proof -
  let ?s1 = "s\<lparr>isScanning := True, progress := 0, currentResult := None\<rparr>"
  note cases = handleScan_valid [OF assms, of e]
  from cases have "\<not> isScanning (fst (handleScan new_URL e s))" by auto
  moreover have "fault e = Some fp \<and> fault_index fp < length steps \<longrightarrow>
      fst (simulateScan e ?s1) = Inl Fault \<and> last (snd (handleScan new_URL e s)) = scanFailedToast"
  proof (intro impI, elim conjE)
    assume "fault e = Some fp" and "fault_index fp < length steps"
    then have f: "fst (simulateScan e ?s1) = Inl Fault" by (rule simulateScan_fault)
    with cases have "last (snd (handleScan new_URL e s)) = scanFailedToast" by auto
    with f show "fst (simulateScan e ?s1) = Inl Fault
        \<and> last (snd (handleScan new_URL e s)) = scanFailedToast" ..
  qed
  moreover have "fault e = None \<longrightarrow>
      (\<exists>r. fst (simulateScan e ?s1) = Inr r \<and> last (snd (handleScan new_URL e s)) = scanCompleteToast r)"
  proof
    assume "fault e = None"
    then obtain r where r: "fst (simulateScan e ?s1) = Inr r"
      using simulateScan_completes by blast
    with cases have "last (snd (handleScan new_URL e s)) = scanCompleteToast r" by auto
    with r show "\<exists>r. fst (simulateScan e ?s1) = Inr r
        \<and> last (snd (handleScan new_URL e s)) = scanCompleteToast r" by blast
  qed
  moreover from run_invariant [of new_URL evs] have "\<not> isScanning (run new_URL evs)"
    by (simp add: state_invariant_def)
  ultimately show ?thesis by (simp add: scanFailedToast_def)
qed

theorem handleScan_clears_isScanning_witness:
  "validateUrl sample_URL (url example_state)
   \<and> fault (example_env\<lparr>fault := Some (AtToast 2)\<rparr>) = Some (AtToast 2)
   \<and> fault_index (AtToast 2) < length steps
   \<and> fst (simulateScan (example_env\<lparr>fault := Some (AtToast 2)\<rparr>)
        (example_state\<lparr>isScanning := True, progress := 0, currentResult := None\<rparr>)) = Inl Fault
   \<and> fst (handleScan sample_URL (example_env\<lparr>fault := Some (AtToast 2)\<rparr>) example_state) =
       example_state\<lparr>progress := 50\<rparr>
   \<and> snd (handleScan sample_URL (example_env\<lparr>fault := Some (AtToast 2)\<rparr>) example_state) =
       [scanningToast 0, scanningToast 1, scanFailedToast]
   \<and> \<not> isScanning (fst (handleScan sample_URL (example_env\<lparr>fault := Some (AtToast 2)\<rparr>) example_state))
   \<and> \<not> isScanning (run sample_URL sample_session)"
proof -
  let ?e = "example_env\<lparr>fault := Some (AtToast 2)\<rparr>"
  have h: "validateUrl sample_URL (url example_state)"
    by (simp add: validateUrl_def sample_URL_def example_state_def startsWith_def)
  note th = handleScan_clears_isScanning [OF h, of ?e "AtToast 2" sample_session]
  have f: "fault ?e = Some (AtToast 2)" by simp
  have i: "fault_index (AtToast 2) < length steps" by (simp add: steps_def)
  have run: "handleScan sample_URL ?e example_state =
      (example_state\<lparr>progress := 50\<rparr>, [scanningToast 0, scanningToast 1, scanFailedToast])"
    by (simp add: handleScan_def validateUrl_def sample_URL_def example_state_def
        startsWith_def simulateScan_def step_loop.simps steps_def Let_def example_env_def
        initialState_def)
  from th f i have "fst (simulateScan ?e
      (example_state\<lparr>isScanning := True, progress := 0, currentResult := None\<rparr>)) = Inl Fault"
    by blast
  moreover from th have "\<not> isScanning (fst (handleScan sample_URL ?e example_state))" by blast
  moreover from th have "\<not> isScanning (run sample_URL sample_session)" by blast
  ultimately show ?thesis using h f i run by simp
qed

section \<open>The URL validator\<close>

lemma startsWith_prefix: "startsWith s p = prefix p s"
  unfolding startsWith_def
proof
  assume "take (length p) s = p"
  then have "prefix (take (length p) s) s \<Longrightarrow> prefix p s" by simp
  then show "prefix p s" by (simp add: take_is_prefix)
next
  assume "prefix p s"
  then obtain zs where "s = p @ zs" by (auto simp: prefix_def)
  then show "take (length p) s = p" by simp
qed

lemma validateUrl_upper_case_scheme: "\<not> validateUrl new_URL ''HTTP://x.com''"
  by (simp add: validateUrl_def startsWith_def split: option.split)

text \<open>
  Claim C4. For every string, the validator returns true exactly when the string parses
  (the URL constructor does not throw) and begins literally with \<open>http://\<close> or
  \<open>https://\<close>. So \<open>not a url\<close> and \<open>ftp://x.com\<close> are invalid whatever the parser says,
  \<open>https://example.com\<close> is valid as the parser accepts it, and a parse failure gives
  false: the validator returns a truth value on every input.
\<close>

theorem validateUrl_iff:
  "(validateUrl new_URL u \<longleftrightarrow>
      new_URL u \<noteq> None \<and> (prefix ''http://'' u \<or> prefix ''https://'' u))
   \<and> \<not> validateUrl new_URL ''not a url''
   \<and> \<not> validateUrl new_URL ''ftp://x.com''
   \<and> (new_URL ''https://example.com'' \<noteq> None \<longrightarrow> validateUrl new_URL ''https://example.com'')
   \<and> (new_URL u = None \<longrightarrow> \<not> validateUrl new_URL u)"
proof -
  have iff: "validateUrl new_URL v \<longleftrightarrow>
      new_URL v \<noteq> None \<and> (prefix ''http://'' v \<or> prefix ''https://'' v)" for v
    by (cases "new_URL v") (simp_all add: validateUrl_def startsWith_prefix)
  have "\<not> validateUrl new_URL ''not a url''" and "\<not> validateUrl new_URL ''ftp://x.com''"
    by (simp_all add: iff)
  moreover have "new_URL ''https://example.com'' \<noteq> None \<longrightarrow> validateUrl new_URL ''https://example.com''"
    by (simp add: iff)
  moreover have "new_URL u = None \<longrightarrow> \<not> validateUrl new_URL u"
    by (simp add: iff)
  ultimately show ?thesis using iff [of u] by blast
qed

theorem validateUrl_iff_witness:
  "sample_URL ''https://example.com'' \<noteq> None
   \<and> validateUrl sample_URL ''https://example.com''
   \<and> sample_URL ''ftp://x.com'' \<noteq> None
   \<and> \<not> validateUrl sample_URL ''ftp://x.com''
   \<and> sample_URL ''not a url'' = None
   \<and> \<not> validateUrl sample_URL ''not a url''
   \<and> validateUrl sample_URL ''http://b.org''"
proof -
  have p: "sample_URL ''https://example.com'' \<noteq> None" "sample_URL ''ftp://x.com'' \<noteq> None"
    "sample_URL ''not a url'' = None" "sample_URL ''http://b.org'' \<noteq> None"
    by (simp_all add: sample_URL_def)
  from validateUrl_iff [of sample_URL "''not a url''"] p
  have "validateUrl sample_URL ''https://example.com''"
    and "\<not> validateUrl sample_URL ''ftp://x.com''"
    and "\<not> validateUrl sample_URL ''not a url''"
    by blast+
  moreover from validateUrl_iff [of sample_URL "''http://b.org''"] p
  have "validateUrl sample_URL ''http://b.org''" by simp
  ultimately show ?thesis using p by simp
qed

section \<open>The result view\<close>












section \<open>History statistics\<close>

lemma foldl_overallScore:
  "foldl (\<lambda>acc scan. acc + overallScore scan) a history = a + sum_list (map overallScore history)"
  by (induction history arbitrary: a) simp_all

lemma avgScore_round:
  "avgScore history =
     round (of_int (sum_list (map overallScore history)) / of_nat (length history) :: rat)"
  by (simp add: avgScore_def Math_round_def round_def foldl_overallScore)

lemma foldl_Set_add:
  "distinct S \<Longrightarrow> distinct (foldl Set_add S xs) \<and> set (foldl Set_add S xs) = set S \<union> set xs"
proof (induction xs arbitrary: S)
  case Nil
  then show ?case by simp
next
  case (Cons x xs)
  from Cons.prems have "distinct (Set_add S x)" by (simp add: Set_add_def)
  from Cons.IH [OF this] show ?case by (auto simp: Set_add_def split: if_splits)
qed

lemma new_Set_size: "length (new_Set xs) = card (set xs)"
proof -
  from foldl_Set_add [of "[]" xs] have "distinct (new_Set xs)" and "set (new_Set xs) = set xs"
    by (simp_all add: new_Set_def)
  then show ?thesis by (metis distinct_card)
qed

lemma hostnames_parsed:
  "list_all (\<lambda>r. new_URL (scan_url r) \<noteq> None) history \<Longrightarrow>
   hostnames new_URL history = Inr (map (\<lambda>r. hostname (the (new_URL (scan_url r)))) history)"
  by (induction history) auto

lemma hostnames_throws:
  "\<not> list_all (\<lambda>r. new_URL (scan_url r) \<noteq> None) history \<Longrightarrow>
   hostnames new_URL history = Inl TypeError"
  by (induction history) (auto split: option.splits sum.splits)

lemma uniqueSites_card:
  assumes "list_all (\<lambda>r. new_URL (scan_url r) \<noteq> None) history"
  shows "uniqueSites new_URL history =
     Inr (card ((\<lambda>r. hostname (the (new_URL (scan_url r)))) ` set history))"
  by (simp add: uniqueSites_def hostnames_parsed [OF assms] new_Set_size)

lemma validateUrl_parses: "validateUrl new_URL u \<Longrightarrow> new_URL u \<noteq> None"
  by (cases "new_URL u") (simp_all add: validateUrl_def)

lemma run_history_parses:
  "list_all (\<lambda>r. new_URL (scan_url r) \<noteq> None) (scanHistory (run new_URL evs))"
  using run_invariant [of new_URL evs]
  by (auto simp: state_invariant_def result_ok_def list_all_iff dest: validateUrl_parses)

text \<open>
  Claim C7. For a history that is not empty, the average shown by both statistics cards
  is the sum of the overall scores divided by the number of results, rounded to the
  nearest integer. Where every stored URL parses, the summary card is rendered and its
  count of unique sites is the number of different hostnames parsed from the stored
  URLs, two results with one hostname counting once. Every stored URL does parse in a
  history reached by user actions.
\<close>

theorem history_aggregation:
  assumes "history \<noteq> []"
  shows "map_option qs_avgScore (quickStats history) =
           Some (round (of_int (sum_list (map overallScore history)) / of_nat (length history) :: rat))
       \<and> (list_all (\<lambda>r. new_URL (scan_url r) \<noteq> None) history \<longrightarrow>
            historySummary new_URL history =
              Inr (Some \<lparr>hs_totalScans = length history,
                hs_criticalIssues = criticalIssues history,
                hs_avgScore =
                  round (of_int (sum_list (map overallScore history)) / of_nat (length history) :: rat),
                hs_uniqueSites =
                  card ((\<lambda>r. hostname (the (new_URL (scan_url r)))) ` set history)\<rparr>))
       \<and> (history = scanHistory (run new_URL evs) \<longrightarrow>
            uniqueSites new_URL history =
              Inr (card ((\<lambda>r. hostname (the (new_URL (scan_url r)))) ` set history)))
       \<and> (new_URL (scan_url a) \<noteq> None \<and> new_URL (scan_url b) \<noteq> None
            \<and> hostname (the (new_URL (scan_url a))) = hostname (the (new_URL (scan_url b)))
          \<longrightarrow> uniqueSites new_URL [a, b] = Inr 1)"
proof -
  from assms have "map_option qs_avgScore (quickStats history) =
      Some (round (of_int (sum_list (map overallScore history)) / of_nat (length history) :: rat))"
    by (simp add: quickStats_def avgScore_round)
  moreover have "list_all (\<lambda>r. new_URL (scan_url r) \<noteq> None) history \<longrightarrow>
      historySummary new_URL history =
              Inr (Some \<lparr>hs_totalScans = length history,
                hs_criticalIssues = criticalIssues history,
                hs_avgScore =
                  round (of_int (sum_list (map overallScore history)) / of_nat (length history) :: rat),
                hs_uniqueSites =
                  card ((\<lambda>r. hostname (the (new_URL (scan_url r)))) ` set history)\<rparr>)"
    using assms by (simp add: historySummary_def uniqueSites_card avgScore_round)
  moreover have "history = scanHistory (run new_URL evs) \<longrightarrow>
      uniqueSites new_URL history =
        Inr (card ((\<lambda>r. hostname (the (new_URL (scan_url r)))) ` set history))"
    using run_history_parses [of new_URL evs] by (simp add: uniqueSites_card)
  moreover have "new_URL (scan_url a) \<noteq> None \<and> new_URL (scan_url b) \<noteq> None
            \<and> hostname (the (new_URL (scan_url a))) = hostname (the (new_URL (scan_url b)))
          \<longrightarrow> uniqueSites new_URL [a, b] = Inr 1"
    by (auto simp: uniqueSites_def new_Set_def Set_add_def)
  ultimately show ?thesis by blast
qed

theorem history_aggregation_witness:
  "quickStats [sample_result ''https://a.com/x'' 85 (take 1 MOCK_VULNERABILITIES),
               sample_result ''https://a.com/y'' 70 (take 2 MOCK_VULNERABILITIES)] =
     Some \<lparr>qs_totalScans = 2, qs_criticalIssues = 0, qs_highIssues = 1, qs_avgScore = 78\<rparr>
   \<and> historySummary sample_URL
        [sample_result ''https://a.com/x'' 85 (take 1 MOCK_VULNERABILITIES),
         sample_result ''https://a.com/y'' 70 (take 2 MOCK_VULNERABILITIES)] =
     Inr (Some \<lparr>hs_totalScans = 2, hs_criticalIssues = 0, hs_avgScore = 78, hs_uniqueSites = 1\<rparr>)
   \<and> uniqueSites sample_URL
        [sample_result ''https://a.com/x'' 85 (take 1 MOCK_VULNERABILITIES),
         sample_result ''https://a.com/y'' 70 (take 2 MOCK_VULNERABILITIES)] = Inr 1
   \<and> uniqueSites sample_URL (scanHistory (run sample_URL sample_session)) = Inr 1"
proof -
  let ?a = "sample_result ''https://a.com/x'' 85 (take 1 MOCK_VULNERABILITIES)"
  let ?b = "sample_result ''https://a.com/y'' 70 (take 2 MOCK_VULNERABILITIES)"
  have ne: "[?a, ?b] \<noteq> []" by simp
  note th = history_aggregation [OF ne, of sample_URL "[]" ?a ?b]
  have parses: "list_all (\<lambda>r. sample_URL (scan_url r) \<noteq> None) [?a, ?b]"
    by (simp add: sample_URL_def sample_result_def)
  have host: "sample_URL (scan_url ?a) \<noteq> None \<and> sample_URL (scan_url ?b) \<noteq> None
      \<and> hostname (the (sample_URL (scan_url ?a))) = hostname (the (sample_URL (scan_url ?b)))"
    by (simp add: sample_URL_def sample_result_def)
  have avg: "round (of_int (sum_list (map overallScore [?a, ?b])) / of_nat (length [?a, ?b]) :: rat) = 78"
    by (simp add: sample_result_def round_def)
  from th host have u: "uniqueSites sample_URL [?a, ?b] = Inr 1" by blast
  from th parses have "historySummary sample_URL [?a, ?b] =
      Inr (Some \<lparr>hs_totalScans = length [?a, ?b],
                hs_criticalIssues = criticalIssues [?a, ?b],
                hs_avgScore =
                  round (of_int (sum_list (map overallScore [?a, ?b])) / of_nat (length [?a, ?b]) :: rat),
                hs_uniqueSites =
                  card ((\<lambda>r. hostname (the (sample_URL (scan_url r)))) ` set [?a, ?b])\<rparr>)"
    by blast
  moreover have "card ((\<lambda>r. hostname (the (sample_URL (scan_url r)))) ` set [?a, ?b]) = 1"
    by (simp add: sample_URL_def sample_result_def)
  moreover have "criticalIssues [?a, ?b] = 0"
    by (simp add: criticalIssues_def sample_result_def MOCK_VULNERABILITIES_def)
  ultimately have hs: "historySummary sample_URL [?a, ?b] =
      Inr (Some \<lparr>hs_totalScans = 2, hs_criticalIssues = 0, hs_avgScore = 78, hs_uniqueSites = 1\<rparr>)"
    using avg by simp
  from th have "map_option qs_avgScore (quickStats [?a, ?b]) =
      Some (round (of_int (sum_list (map overallScore [?a, ?b])) / of_nat (length [?a, ?b]) :: rat))"
    by blast
  with avg have "map_option qs_avgScore (quickStats [?a, ?b]) = Some 78" by simp
  then have qs: "quickStats [?a, ?b] =
      Some \<lparr>qs_totalScans = 2, qs_criticalIssues = 0, qs_highIssues = 1, qs_avgScore = 78\<rparr>"
    by (simp add: quickStats_def criticalIssues_def highIssues_def sample_result_def
        MOCK_VULNERABILITIES_def)
  have ne2: "scanHistory (run sample_URL sample_session) \<noteq> []"
    by (simp add: sample_session_history)
  from history_aggregation [OF ne2, of sample_URL sample_session ?a ?b]
  have "uniqueSites sample_URL (scanHistory (run sample_URL sample_session)) =
      Inr (card ((\<lambda>r. hostname (the (sample_URL (scan_url r))))
        ` set (scanHistory (run sample_URL sample_session))))" by blast
  also have "card ((\<lambda>r. hostname (the (sample_URL (scan_url r))))
        ` set (scanHistory (run sample_URL sample_session))) = 1"
    by (simp add: sample_session_history sample_scan_def sample_result_def sample_URL_def)
  finally have r: "uniqueSites sample_URL (scanHistory (run sample_URL sample_session)) = Inr 1" .
  from qs hs u r show ?thesis by simp
qed

end
